theory Spec2Isabelle
  imports Main "HOL-Library.Log_Nat"
begin

section \<open>Order placement of the e-commerce backend\<close>

text \<open>
  The server keeps its data in three tables that the order route touches:
  \<^verbatim>\<open>products\<close>, \<^verbatim>\<open>orders\<close> and \<^verbatim>\<open>order_items\<close>. Every
  \<^verbatim>\<open>await pool.query(...)\<close> of a route is one statement sent to the database on
  its own (the source opens no transaction), so a route is modelled as a tree of
  statements: each node is one awaited query together with the code that runs on its
  result. Two interpreters run such a tree: \<open>run\<close> executes it alone against a store,
  with a schedule saying which queries are rejected by the database, and
  \<open>interleave\<close> executes two of them against one store, switching at the awaits.

  Scope of the model.
  \<^item> Ids are strings (the entities declare uuid columns) and a JSON number is an
    integer; fractional quantities and quantities of other JSON types are outside the
    model.
  \<^item> A money amount is the integer number of its hundredths (the entities declare
    \<^verbatim>\<open>decimal(10, 2)\<close> columns). The routes carry the total as the exact sum. The
    source computes it with JavaScript \<^verbatim>\<open>Number\<close> values, that is in binary
    floating point; that computation is modelled beside the routes (\<open>js_total\<close>), and
    C2 says when the two agree.
  \<^item> The columns carry no check constraint on their values (the entities declare
    none); why the database rejects a query is not modelled, only that it may.
  \<^item> The \<^verbatim>\<open>created_at\<close> columns, logging and authentication are left out.
\<close>

subsection \<open>Rows and the store\<close>

record product_row =
  p_seller_id :: string
  p_name :: string
  p_description :: string
  p_price :: int
  p_stock :: int
  p_imageurl :: "string option"

record order_row =
  o_id :: nat
  o_buyer_id :: string
  o_total :: int
  o_status :: string

record order_item_row =
  oi_order_id :: nat
  oi_product_id :: string
  oi_quantity :: int
  oi_price :: int

text \<open>
  \<open>products_tbl\<close> maps the primary key \<^verbatim>\<open>id\<close> to the other columns of the row;
  \<open>orders_seq\<close> is the generator of \<^verbatim>\<open>orders.id\<close>.
\<close>

record store =
  products_tbl :: "string \<rightharpoonup> product_row"
  orders_tbl :: "order_row list"
  order_items_tbl :: "order_item_row list"
  orders_seq :: nat

subsection \<open>Requests and responses\<close>

text \<open>
  One element of the \<^verbatim>\<open>products\<close> array of the request body. A field is
  \<open>None\<close> when the element has no such property (or has it as \<^verbatim>\<open>null\<close>). An
  element that is itself \<^verbatim>\<open>null\<close> is \<open>None\<close> in the list of the request.
\<close>

record item =
  product_id :: "string option"
  quantity :: "int option"

text \<open>An entry of \<^verbatim>\<open>productDetails\<close>.\<close>

record detail =
  d_product_id :: string
  d_quantity :: int
  d_price :: int

text \<open>
  The error bodies of the two routes, one constructor per message of the source:
  \<^item> \<open>ProductsRequired\<close>: "Produtos sao obrigatorios e devem ser um array";
  \<^item> \<open>ItemFieldsRequired\<close>: "Cada produto deve ter ID e quantidade";
  \<^item> \<open>UnavailableOrInsufficient id\<close>: "Produto id nao disponivel ou estoque insuficiente";
  \<^item> \<open>OrderCreationError\<close>: "Erro ao criar pedido";
  \<^item> \<open>NotFoundOrForbidden\<close>: "Produto nao encontrado ou voce nao tem permissao";
  \<^item> \<open>ProductEditError\<close>: "Erro ao editar produto".
\<close>

datatype error_msg =
    ProductsRequired
  | ItemFieldsRequired
  | UnavailableOrInsufficient string
  | OrderCreationError
  | NotFoundOrForbidden
  | ProductEditError

datatype body =
    ErrorJson error_msg
  | OrderJson order_row
  | ProductJson "product_row option"

datatype response = Response (status: nat) (json: body)

subsection \<open>JavaScript truthiness of the two item fields\<close>

text \<open>\<^verbatim>\<open>!product_id\<close>: true for a missing field and for the empty string.\<close>

definition js_not_str :: "string option \<Rightarrow> bool" where
  "js_not_str v = (case v of None \<Rightarrow> True | Some x \<Rightarrow> x = [])"

text \<open>\<^verbatim>\<open>!quantity\<close>: true for a missing field and for the number 0.\<close>

definition js_not_num :: "int option \<Rightarrow> bool" where
  "js_not_num v = (case v of None \<Rightarrow> True | Some n \<Rightarrow> n = 0)"

subsection \<open>The statements the routes send\<close>

text \<open>\<^verbatim>\<open>SELECT * FROM products WHERE id = $1\<close>, then \<^verbatim>\<open>rows[0]\<close>.\<close>

definition select_product :: "string \<Rightarrow> store \<Rightarrow> product_row option" where
  "select_product pid s = products_tbl s pid"

text \<open>
  \<^verbatim>\<open>INSERT INTO orders (buyer_id, total, status) VALUES ($1, $2, $3) RETURNING *\<close>,
  then \<^verbatim>\<open>rows[0]\<close>.
\<close>

definition insert_order :: "string \<Rightarrow> int \<Rightarrow> string \<Rightarrow> store \<Rightarrow> order_row \<times> store" where
  "insert_order buyer tot st s =
     (let row = \<lparr>o_id = orders_seq s, o_buyer_id = buyer, o_total = tot, o_status = st\<rparr>
      in (row, s\<lparr>orders_tbl := orders_tbl s @ [row], orders_seq := Suc (orders_seq s)\<rparr>))"

text \<open>
  \<^verbatim>\<open>INSERT INTO order_items (order_id, product_id, quantity, price) VALUES ($1, $2, $3, $4)\<close>.
\<close>

definition insert_order_item :: "nat \<Rightarrow> string \<Rightarrow> int \<Rightarrow> int \<Rightarrow> store \<Rightarrow> store" where
  "insert_order_item oid pid q pr s =
     s\<lparr>order_items_tbl := order_items_tbl s @
          [\<lparr>oi_order_id = oid, oi_product_id = pid, oi_quantity = q, oi_price = pr\<rparr>]\<rparr>"

text \<open>\<^verbatim>\<open>UPDATE products SET stock = stock - $1 WHERE id = $2\<close>.\<close>

definition update_stock :: "int \<Rightarrow> string \<Rightarrow> store \<Rightarrow> store" where
  "update_stock q pid s =
     (case products_tbl s pid of
        None \<Rightarrow> s
      | Some p \<Rightarrow> s\<lparr>products_tbl := (products_tbl s)(pid \<mapsto> p\<lparr>p_stock := p_stock p - q\<rparr>)\<rparr>)"

text \<open>\<^verbatim>\<open>SELECT * FROM products WHERE id = $1 AND seller_id = $2\<close>, then \<^verbatim>\<open>rows[0]\<close>.\<close>

definition select_own_product :: "string \<Rightarrow> string \<Rightarrow> store \<Rightarrow> product_row option" where
  "select_own_product pid seller s =
     (case products_tbl s pid of
        None \<Rightarrow> None
      | Some p \<Rightarrow> if p_seller_id p = seller then Some p else None)"

text \<open>
  \<^verbatim>\<open>UPDATE products SET name = $1, description = $2, price = $3, stock = $4,
  imageurl = $5 WHERE id = $6 RETURNING *\<close>, then \<^verbatim>\<open>rows[0]\<close>.
\<close>

definition update_product ::
  "string \<Rightarrow> string \<Rightarrow> int \<Rightarrow> int \<Rightarrow> string option \<Rightarrow> string \<Rightarrow> store
     \<Rightarrow> product_row option \<times> store" where
  "update_product name description price stock imagePath pid s =
     (case products_tbl s pid of
        None \<Rightarrow> (None, s)
      | Some p \<Rightarrow>
          (let row = p\<lparr>p_name := name, p_description := description, p_price := price,
                       p_stock := stock, p_imageurl := imagePath\<rparr>
           in (Some row, s\<lparr>products_tbl := (products_tbl s)(pid \<mapsto> row)\<rparr>)))"

subsection \<open>Routes as trees of awaited statements\<close>

text \<open>
  \<open>Respond r\<close> is \<^verbatim>\<open>return res.status(..).json(..)\<close>; \<open>Throw\<close> is an exception
  raised by the route's own code, which its \<^verbatim>\<open>catch\<close> block answers. Every other
  constructor is one \<^verbatim>\<open>await pool.query\<close> with its parameters and the code that
  follows it.
\<close>

datatype prog =
    Respond response
  | Throw
  | SelectProduct string "product_row option \<Rightarrow> prog"
  | InsertOrder string int string "order_row \<Rightarrow> prog"
  | InsertOrderItem nat string int int prog
  | UpdateStock int string prog
  | SelectOwnProduct string string "product_row option \<Rightarrow> prog"
  | UpdateProduct string string int int "string option" string "product_row option \<Rightarrow> prog"

subsection \<open>POST /orders\<close>

text \<open>
  The parts of the route are given last first, since each ends by handing on to the
  next one: the three loops and, between the first and the second, the insert of the
  order. \<open>buyer\<close> is \<^verbatim>\<open>req.user.id\<close> and \<open>tot\<close> is the \<^verbatim>\<open>total\<close> of the
  source.
\<close>

text \<open>The third loop: one stock update per entry of \<^verbatim>\<open>productDetails\<close>, then 201.\<close>

fun update_stocks :: "detail list \<Rightarrow> order_row \<Rightarrow> prog" where
  "update_stocks [] order = Respond (Response 201 (OrderJson order))"
| "update_stocks (d # ds) order =
     UpdateStock (d_quantity d) (d_product_id d) (update_stocks ds order)"

text \<open>
  The second loop: one line item per entry of \<^verbatim>\<open>productDetails\<close>. The second
  argument is the whole of \<^verbatim>\<open>productDetails\<close>, which the third loop walks again.
\<close>

fun insert_items :: "detail list \<Rightarrow> detail list \<Rightarrow> order_row \<Rightarrow> prog" where
  "insert_items [] productDetails order = update_stocks productDetails order"
| "insert_items (d # ds) productDetails order =
     InsertOrderItem (o_id order) (d_product_id d) (d_quantity d) (d_price d)
       (insert_items ds productDetails order)"

definition create_order :: "string \<Rightarrow> int \<Rightarrow> detail list \<Rightarrow> prog" where
  "create_order buyer tot productDetails =
     InsertOrder buyer tot ''pendente''
       (\<lambda>order. insert_items productDetails productDetails order)"

text \<open>
  The first loop. Destructuring a \<^verbatim>\<open>null\<close> element throws a TypeError; an element
  with a falsy field is answered 400; then the product is read, and a missing row or
  a stock below the quantity is answered 400.
\<close>

fun check_items :: "string \<Rightarrow> item option list \<Rightarrow> int \<Rightarrow> detail list \<Rightarrow> prog" where
  "check_items buyer [] tot productDetails = create_order buyer tot productDetails"
| "check_items buyer (None # rest) tot productDetails = Throw"
| "check_items buyer (Some it # rest) tot productDetails =
     (case (product_id it, quantity it) of
        (Some pid, Some q) \<Rightarrow>
          if js_not_str (Some pid) \<or> js_not_num (Some q)
          then Respond (Response 400 (ErrorJson ItemFieldsRequired))
          else SelectProduct pid (\<lambda>product.
            case product of
              None \<Rightarrow> Respond (Response 400 (ErrorJson (UnavailableOrInsufficient pid)))
            | Some p \<Rightarrow>
                if p_stock p < q
                then Respond (Response 400 (ErrorJson (UnavailableOrInsufficient pid)))
                else check_items buyer rest (tot + p_price p * q)
                       (productDetails @
                          [\<lparr>d_product_id = pid, d_quantity = q, d_price = p_price p\<rparr>]))
      | _ \<Rightarrow> Respond (Response 400 (ErrorJson ItemFieldsRequired)))"

text \<open>
  The route. The request's \<^verbatim>\<open>products\<close> is \<open>None\<close> when the body has no such
  field or the field is not an array.
\<close>

definition post_orders :: "string \<Rightarrow> item option list option \<Rightarrow> prog" where
  "post_orders buyer products =
     (case products of
        None \<Rightarrow> Respond (Response 400 (ErrorJson ProductsRequired))
      | Some items \<Rightarrow> check_items buyer items 0 [])"

definition post_orders_catch :: response where
  "post_orders_catch = Response 500 (ErrorJson OrderCreationError)"

subsection \<open>PUT /products/:id\<close>

text \<open>
  \<open>file\<close> is the stored name of the uploaded image, if the request carries one.
\<close>

definition put_product ::
  "string \<Rightarrow> string \<Rightarrow> string \<Rightarrow> string \<Rightarrow> int \<Rightarrow> int \<Rightarrow> string option \<Rightarrow> prog" where
  "put_product pid seller name description price stock file =
     SelectOwnProduct pid seller (\<lambda>product.
       case product of
         None \<Rightarrow> Respond (Response 403 (ErrorJson NotFoundOrForbidden))
       | Some p \<Rightarrow>
           (let imagePath = (case file of None \<Rightarrow> p_imageurl p
                                        | Some f \<Rightarrow> Some (''uploads/'' @ f))
            in UpdateProduct name description price stock imagePath pid
                 (\<lambda>row. Respond (Response 200 (ProductJson row)))))"

definition put_product_catch :: response where
  "put_product_catch = Response 500 (ErrorJson ProductEditError)"

subsection \<open>Running one route\<close>

text \<open>
  The schedule \<open>fs\<close> has one entry per query the route issues, in order: \<open>True\<close>
  when the database rejects that query (the awaited promise throws, the statement has
  no effect, and the route's \<^verbatim>\<open>catch\<close> block answers). Past its end no query is
  rejected.
\<close>

definition rejects :: "bool list \<Rightarrow> bool" where
  "rejects fs = (case fs of [] \<Rightarrow> False | f # _ \<Rightarrow> f)"

primrec run :: "response \<Rightarrow> prog \<Rightarrow> bool list \<Rightarrow> store \<Rightarrow> response \<times> store" where
  "run catch (Respond r) fs s = (r, s)"
| "run catch Throw fs s = (catch, s)"
| "run catch (SelectProduct pid k) fs s =
     (if rejects fs then (catch, s)
      else run catch (k (select_product pid s)) (tl fs) s)"
| "run catch (InsertOrder buyer tot st k) fs s =
     (if rejects fs then (catch, s)
      else run catch (k (fst (insert_order buyer tot st s))) (tl fs)
             (snd (insert_order buyer tot st s)))"
| "run catch (InsertOrderItem oid pid q pr k) fs s =
     (if rejects fs then (catch, s)
      else run catch k (tl fs) (insert_order_item oid pid q pr s))"
| "run catch (UpdateStock q pid k) fs s =
     (if rejects fs then (catch, s)
      else run catch k (tl fs) (update_stock q pid s))"
| "run catch (SelectOwnProduct pid seller k) fs s =
     (if rejects fs then (catch, s)
      else run catch (k (select_own_product pid seller s)) (tl fs) s)"
| "run catch (UpdateProduct name description price stock imagePath pid k) fs s =
     (if rejects fs then (catch, s)
      else run catch (k (fst (update_product name description price stock imagePath pid s)))
             (tl fs) (snd (update_product name description price stock imagePath pid s)))"

definition place_order ::
  "string \<Rightarrow> item option list option \<Rightarrow> bool list \<Rightarrow> store \<Rightarrow> response \<times> store" where
  "place_order buyer products fs s = run post_orders_catch (post_orders buyer products) fs s"

definition edit_product ::
  "string \<Rightarrow> string \<Rightarrow> string \<Rightarrow> string \<Rightarrow> int \<Rightarrow> int \<Rightarrow> string option \<Rightarrow> bool list \<Rightarrow> store
     \<Rightarrow> response \<times> store" where
  "edit_product pid seller name description price stock file fs s =
     run put_product_catch (put_product pid seller name description price stock file) fs s"

subsection \<open>Running two routes against one store\<close>

text \<open>
  One step of a route: its next query is executed (and not rejected) and the route
  proceeds to its next await. A route that has answered stays as it is.
\<close>

fun step :: "prog \<Rightarrow> store \<Rightarrow> prog \<times> store" where
  "step (Respond r) s = (Respond r, s)"
| "step Throw s = (Throw, s)"
| "step (SelectProduct pid k) s = (k (select_product pid s), s)"
| "step (InsertOrder buyer tot st k) s =
     (k (fst (insert_order buyer tot st s)), snd (insert_order buyer tot st s))"
| "step (InsertOrderItem oid pid q pr k) s = (k, insert_order_item oid pid q pr s)"
| "step (UpdateStock q pid k) s = (k, update_stock q pid s)"
| "step (SelectOwnProduct pid seller k) s = (k (select_own_product pid seller s), s)"
| "step (UpdateProduct name description price stock imagePath pid k) s =
     (k (fst (update_product name description price stock imagePath pid s)),
      snd (update_product name description price stock imagePath pid s))"

text \<open>
  The schedule says which of the two requests performs the next step: \<open>True\<close> for
  the first, \<open>False\<close> for the second.
\<close>

fun interleave :: "bool list \<Rightarrow> prog \<Rightarrow> prog \<Rightarrow> store \<Rightarrow> prog \<times> prog \<times> store" where
  "interleave [] p1 p2 s = (p1, p2, s)"
| "interleave (b # bs) p1 p2 s =
     (if b then interleave bs (fst (step p1 s)) p2 (snd (step p1 s))
      else interleave bs p1 (fst (step p2 s)) (snd (step p2 s)))"

text \<open>The answer of a route that has finished, \<open>None\<close> while it still awaits a query.\<close>

fun answer :: "response \<Rightarrow> prog \<Rightarrow> response option" where
  "answer catch (Respond r) = Some r"
| "answer catch Throw = Some catch"
| "answer catch p = None"


subsection \<open>Vocabulary of the properties\<close>

text \<open>
  What the first loop makes of one element of the request against the store \<open>s\<close>:
  the entry it pushes on \<^verbatim>\<open>productDetails\<close> when the element passes every check
  (both fields truthy, the product row exists, its stock is not below the quantity),
  and \<open>None\<close> when it is turned down. The unit price of the entry is the price of the
  product row in \<open>s\<close>.
\<close>

definition snapshot :: "store \<Rightarrow> item option \<Rightarrow> detail option" where
  "snapshot s x =
     (case x of
        None \<Rightarrow> None
      | Some it \<Rightarrow>
          (case (product_id it, quantity it) of
             (Some pid, Some q) \<Rightarrow>
               if pid = [] \<or> q = 0 then None
               else (case products_tbl s pid of
                       None \<Rightarrow> None
                     | Some p \<Rightarrow>
                         if p_stock p < q then None
                         else Some \<lparr>d_product_id = pid, d_quantity = q, d_price = p_price p\<rparr>)
           | _ \<Rightarrow> None))"

definition valid_item :: "store \<Rightarrow> item option \<Rightarrow> bool" where
  "valid_item s x = (snapshot s x \<noteq> None)"

definition snapshots :: "store \<Rightarrow> item option list \<Rightarrow> detail list" where
  "snapshots s items = List.map_filter (snapshot s) items"

definition order_total :: "detail list \<Rightarrow> int" where
  "order_total ds = sum_list (map (\<lambda>d. d_price d * d_quantity d) ds)"

text \<open>The quantity a list of lines asks of one product, all its lines together.\<close>

definition requested :: "detail list \<Rightarrow> string \<Rightarrow> int" where
  "requested ds pid = sum_list (map d_quantity (filter (\<lambda>d. d_product_id d = pid) ds))"

text \<open>
  How many of the next \<open>n\<close> queries complete before the database rejects one; all of
  them do when the result is \<open>n\<close>.
\<close>

fun completed :: "nat \<Rightarrow> bool list \<Rightarrow> nat" where
  "completed 0 fs = 0"
| "completed (Suc n) fs = (if rejects fs then 0 else Suc (completed n (tl fs)))"

text \<open>
  The writes of one order, in the order the route issues them: the header, one line
  item per entry, one stock update per entry.
\<close>

definition order_item_of :: "nat \<Rightarrow> detail \<Rightarrow> order_item_row" where
  "order_item_of oid d =
     \<lparr>oi_order_id = oid, oi_product_id = d_product_id d, oi_quantity = d_quantity d,
      oi_price = d_price d\<rparr>"

definition ins_line :: "nat \<Rightarrow> detail \<Rightarrow> store \<Rightarrow> store" where
  "ins_line oid d = insert_order_item oid (d_product_id d) (d_quantity d) (d_price d)"

definition dec_line :: "detail \<Rightarrow> store \<Rightarrow> store" where
  "dec_line d = update_stock (d_quantity d) (d_product_id d)"

definition order_writes :: "string \<Rightarrow> int \<Rightarrow> detail list \<Rightarrow> nat \<Rightarrow> (store \<Rightarrow> store) list" where
  "order_writes b t ds oid =
     (\<lambda>s. snd (insert_order b t ''pendente'' s)) # map (ins_line oid) ds @ map dec_line ds"

definition apply_writes :: "(store \<Rightarrow> store) list \<Rightarrow> store \<Rightarrow> store" where
  "apply_writes ws s = fold (\<lambda>w. w) ws s"

definition writes_of :: "string \<Rightarrow> store \<Rightarrow> item option list \<Rightarrow> (store \<Rightarrow> store) list" where
  "writes_of b s items =
     order_writes b (order_total (snapshots s items)) (snapshots s items) (orders_seq s)"

text \<open>The order row the route inserts for a request whose elements all pass.\<close>

definition new_order :: "string \<Rightarrow> store \<Rightarrow> item option list \<Rightarrow> order_row" where
  "new_order b s items =
     \<lparr>o_id = orders_seq s, o_buyer_id = b, o_total = order_total (snapshots s items),
      o_status = ''pendente''\<rparr>"


text \<open>
  The status values the \<^verbatim>\<open>Order\<close> entity lists in the comment of its
  \<^verbatim>\<open>status\<close> column.
\<close>

definition order_statuses :: "string set" where
  "order_statuses = {''pending'', ''paid'', ''shipped'', ''delivered'', ''cancelled''}"

subsection \<open>The total as the source computes it\<close>

text \<open>
  A JavaScript \<^verbatim>\<open>Number\<close> is a binary64 floating-point number: a rational
  \<open>m * 2 ^ e\<close> with an integer \<open>m\<close> of at most 53 bits. Every conversion and every
  arithmetic operation yields the Number nearest to the exact result, a tie going to
  the even \<open>m\<close>. \<open>b64\<close> is that rounding, for results in the normal range (magnitudes
  from \<open>2 ^ -1022\<close> to below \<open>2 ^ 1024\<close>); prices of a \<^verbatim>\<open>decimal(10, 2)\<close> column,
  quantities of an integer column and their sums and products are far inside it.
  \<open>ilog2 y\<close> is the exponent of the highest bit of \<open>y\<close>, found from the bit lengths
  of its numerator and denominator.
\<close>

definition ilog2 :: "rat \<Rightarrow> int" where
  "ilog2 y =
     (let d = bitlen (fst (quotient_of y)) - bitlen (snd (quotient_of y))
      in if 2 powi d \<le> y then d else d - 1)"









subsection \<open>A small shop for the examples\<close>

definition product :: "int \<Rightarrow> int \<Rightarrow> product_row" where
  "product pr st =
     \<lparr>p_seller_id = ''seller'', p_name = ''name'', p_description = ''text'', p_price = pr,
      p_stock = st, p_imageurl = None\<rparr>"

text \<open>Product A costs 10.00 and has 5 in stock, product B costs 2.50 and has 2.\<close>

definition shop :: store where
  "shop = \<lparr>products_tbl = [''A'' \<mapsto> product 1000 5, ''B'' \<mapsto> product 250 2],
           orders_tbl = [], order_items_tbl = [], orders_seq = 1\<rparr>"

definition line :: "string \<Rightarrow> int \<Rightarrow> item option" where
  "line pid q = Some \<lparr>product_id = Some pid, quantity = Some q\<rparr>"

text \<open>A shop whose only product has one unit left.\<close>

definition one_left :: store where
  "one_left = \<lparr>products_tbl = [''A'' \<mapsto> product 1000 1], orders_tbl = [],
               order_items_tbl = [], orders_seq = 1\<rparr>"


section \<open>Auxiliary facts\<close>

lemma fst_insert_order:
  "fst (insert_order b t st s) =
     \<lparr>o_id = orders_seq s, o_buyer_id = b, o_total = t, o_status = st\<rparr>"
  by (simp add: insert_order_def Let_def)

lemma snd_insert_order:
  "snd (insert_order b t st s) =
     s\<lparr>orders_tbl := orders_tbl s @
          [\<lparr>o_id = orders_seq s, o_buyer_id = b, o_total = t, o_status = st\<rparr>],
       orders_seq := Suc (orders_seq s)\<rparr>"
  by (simp add: insert_order_def Let_def)

lemma rejects_simps [simp]: "rejects [] = False" "rejects (f # fs) = f"
  by (simp_all add: rejects_def)

lemma no_reject_Suc:
  "True \<notin> set (take (Suc n) fs) \<longleftrightarrow> \<not> rejects fs \<and> True \<notin> set (take n (tl fs))"
  by (cases fs) auto

lemma apply_writes_simps [simp]:
  "apply_writes [] s = s" "apply_writes (w # ws) s = apply_writes ws (w s)"
  by (simp_all add: apply_writes_def)

lemma completed_le: "completed n fs \<le> n"
  by (induction n arbitrary: fs) auto

lemma completed_all: "completed n fs = n \<longleftrightarrow> True \<notin> set (take n fs)"
proof (induction n arbitrary: fs)
  case 0
  then show ?case by simp
next
  case (Suc n)
  then show ?case by (cases fs) auto
qed

lemma snapshots_Nil: "snapshots s [] = []"
  by (simp add: snapshots_def)

lemma snapshots_Cons:
  "snapshot s x = Some d \<Longrightarrow> snapshots s (x # xs) = d # snapshots s xs"
  by (simp add: snapshots_def)

lemma snapshot_SomeE:
  assumes "snapshot s x = Some d"
  obtains it pid q p where "x = Some it" "product_id it = Some pid" "quantity it = Some q"
    "pid \<noteq> []" "q \<noteq> 0" "products_tbl s pid = Some p" "\<not> p_stock p < q"
    "d = \<lparr>d_product_id = pid, d_quantity = q, d_price = p_price p\<rparr>"
  using assms by (auto simp: snapshot_def split: option.splits if_splits)

subsection \<open>The first loop\<close>

text \<open>
  While every element passes and no read is rejected, the loop only accumulates; it
  hands the rest of the request on with the total and the snapshots so far.
\<close>

lemma check_items_valid_prefix:
  assumes "\<forall>x\<in>set pre. valid_item s x" and "True \<notin> set (take (length pre) fs)"
  shows "run c (check_items b (pre @ rest) t ds) fs s =
         run c (check_items b rest (t + order_total (snapshots s pre)) (ds @ snapshots s pre))
           (drop (length pre) fs) s"
  using assms
proof (induction pre arbitrary: t ds fs)
  case Nil
  then show ?case by (simp add: snapshots_Nil order_total_def)
next
  case (Cons x pre)
  from Cons.prems(1) have "valid_item s x" by simp
  then obtain d where d: "snapshot s x = Some d" by (auto simp: valid_item_def)
  then obtain it pid q p where x: "x = Some it" "product_id it = Some pid" "quantity it = Some q"
    "pid \<noteq> []" "q \<noteq> 0" "products_tbl s pid = Some p" "\<not> p_stock p < q"
    "d = \<lparr>d_product_id = pid, d_quantity = q, d_price = p_price p\<rparr>"
    by (rule snapshot_SomeE)
  from Cons.prems(2) have nr: "\<not> rejects fs" "True \<notin> set (take (length pre) (tl fs))"
    by (simp_all add: no_reject_Suc)
  have "run c (check_items b ((x # pre) @ rest) t ds) fs s =
        run c (check_items b (pre @ rest) (t + p_price p * q) (ds @ [d])) (tl fs) s"
    using x nr(1) by (simp add: js_not_str_def js_not_num_def select_product_def)
  also have "\<dots> = run c (check_items b rest (t + p_price p * q + order_total (snapshots s pre))
                       ((ds @ [d]) @ snapshots s pre)) (drop (length pre) (tl fs)) s"
    using Cons.prems(1) nr(2) by (intro Cons.IH) simp_all
  finally show ?case
    using d x(8) by (simp add: snapshots_Cons order_total_def drop_Suc add.assoc)
qed

lemma check_items_valid:
  assumes "\<forall>x\<in>set items. valid_item s x" and "True \<notin> set (take (length items) fs)"
  shows "run c (check_items b items t ds) fs s =
         run c (create_order b (t + order_total (snapshots s items)) (ds @ snapshots s items))
           (drop (length items) fs) s"
  using check_items_valid_prefix [OF assms, of c b "[]" t ds] by simp

text \<open>
  An element that is turned down, or a rejected read, ends the route inside the first
  loop: the answer is a 400 or the answer of the catch block, and nothing was written.
\<close>

lemma check_items_rejected:
  assumes "(\<exists>x\<in>set items. \<not> valid_item s x) \<or> True \<in> set (take (length items) fs)"
  shows "\<exists>r. run c (check_items b items t ds) fs s = (r, s) \<and> (r = c \<or> status r = 400)"
  using assms
proof (induction items arbitrary: t ds fs)
  case Nil
  then show ?case by simp
next
  case (Cons x items)
  show ?case
  proof (cases "snapshot s x")
    case None
    then show ?thesis
      by (cases x) (auto simp: snapshot_def js_not_str_def js_not_num_def select_product_def
          split: option.splits if_splits)
  next
    case (Some d)
    then obtain it pid q p where x: "x = Some it" "product_id it = Some pid" "quantity it = Some q"
      "pid \<noteq> []" "q \<noteq> 0" "products_tbl s pid = Some p" "\<not> p_stock p < q"
      by (rule snapshot_SomeE)
    show ?thesis
    proof (cases "rejects fs")
      case True
      then show ?thesis using x by (simp add: js_not_str_def js_not_num_def)
    next
      case False
      have v: "valid_item s x" using Some by (simp add: valid_item_def)
      have "(\<exists>x\<in>set items. \<not> valid_item s x) \<or> True \<in> set (take (length items) (tl fs))"
        using Cons.prems v False no_reject_Suc [of "length items" fs] by auto
      from Cons.IH [OF this]
      show ?thesis using x False by (simp add: js_not_str_def js_not_num_def select_product_def)
    qed
  qed
qed

subsection \<open>The writes\<close>

lemma run_update_stocks:
  "run c (update_stocks xs order) gs s =
     (if completed (length xs) gs = length xs then Response 201 (OrderJson order) else c,
      apply_writes (take (completed (length xs) gs) (map dec_line xs)) s)"
proof (induction xs arbitrary: gs s)
  case Nil
  then show ?case by simp
next
  case (Cons d xs)
  then show ?case by (simp add: dec_line_def)
qed

lemma run_insert_items:
  "run c (insert_items xs productDetails order) gs s =
     (if completed (length xs + length productDetails) gs = length xs + length productDetails
      then Response 201 (OrderJson order) else c,
      apply_writes (take (completed (length xs + length productDetails) gs)
                      (map (ins_line (o_id order)) xs @ map dec_line productDetails)) s)"
proof (induction xs arbitrary: gs s)
  case Nil
  then show ?case by (simp add: run_update_stocks)
next
  case (Cons d xs)
  then show ?case by (simp add: ins_line_def)
qed

lemma run_create_order:
  "run c (create_order b t ds) gs s =
     (if completed (Suc (2 * length ds)) gs = Suc (2 * length ds)
      then Response 201 (OrderJson \<lparr>o_id = orders_seq s, o_buyer_id = b, o_total = t,
                                     o_status = ''pendente''\<rparr>)
      else c,
      apply_writes (take (completed (Suc (2 * length ds)) gs)
                      (order_writes b t ds (orders_seq s))) s)"
  by (simp add: create_order_def run_insert_items fst_insert_order order_writes_def mult_2)

lemma length_snapshots:
  "\<forall>x\<in>set items. valid_item s x \<Longrightarrow> length (snapshots s items) = length items"
proof (induction items)
  case Nil
  then show ?case by (simp add: snapshots_Nil)
next
  case (Cons x items)
  then obtain d where "snapshot s x = Some d" by (auto simp: valid_item_def)
  with Cons show ?case by (simp add: snapshots_Cons)
qed

lemma length_order_writes: "length (order_writes b t ds oid) = Suc (2 * length ds)"
  by (simp add: order_writes_def)

lemma snapshots_price:
  "d \<in> set (snapshots s items) \<Longrightarrow>
     map_option p_price (products_tbl s (d_product_id d)) = Some (d_price d)"
proof (induction items)
  case Nil
  then show ?case by (simp add: snapshots_Nil)
next
  case (Cons x items)
  show ?case
  proof (cases "snapshot s x")
    case None
    then have "snapshots s (x # items) = snapshots s items"
      by (simp add: snapshots_def)
    with Cons show ?thesis by simp
  next
    case (Some e)
    then have "snapshots s (x # items) = e # snapshots s items"
      by (rule snapshots_Cons)
    moreover have "map_option p_price (products_tbl s (d_product_id e)) = Some (d_price e)"
      using Some by (auto elim!: snapshot_SomeE)
    ultimately show ?thesis using Cons by auto
  qed
qed

subsection \<open>The store after the writes\<close>

lemma apply_writes_append:
  "apply_writes (ws1 @ ws2) s = apply_writes ws2 (apply_writes ws1 s)"
  by (simp add: apply_writes_def)

lemma apply_writes_map: "apply_writes (map f xs) s = fold f xs s"
  by (simp add: apply_writes_def fold_map comp_def)

lemma fold_ins_line:
  "fold (ins_line oid) ds s =
     s\<lparr>order_items_tbl := order_items_tbl s @ map (order_item_of oid) ds\<rparr>"
  by (induction ds arbitrary: s)
     (simp_all add: ins_line_def insert_order_item_def order_item_of_def)

lemma dec_line_tables:
  "orders_tbl (dec_line d s) = orders_tbl s"
  "order_items_tbl (dec_line d s) = order_items_tbl s"
  "orders_seq (dec_line d s) = orders_seq s"
  by (simp_all add: dec_line_def update_stock_def split: option.splits)

lemma fold_dec_line_tables:
  "orders_tbl (fold dec_line ds s) = orders_tbl s"
  "order_items_tbl (fold dec_line ds s) = order_items_tbl s"
  "orders_seq (fold dec_line ds s) = orders_seq s"
  by (induction ds arbitrary: s) (simp_all add: dec_line_tables)

lemma dec_line_products:
  "products_tbl (dec_line d s) pid =
     (if d_product_id d = pid
      then map_option (\<lambda>p. p\<lparr>p_stock := p_stock p - d_quantity d\<rparr>) (products_tbl s pid)
      else products_tbl s pid)"
  by (simp add: dec_line_def update_stock_def split: option.splits)

text \<open>One update per line: a product named by several lines is decremented by their sum.\<close>

lemma fold_dec_line_products:
  "products_tbl (fold dec_line ds s) pid =
     map_option (\<lambda>p. p\<lparr>p_stock := p_stock p - requested ds pid\<rparr>) (products_tbl s pid)"
proof (induction ds arbitrary: s)
  case Nil
  then show ?case by (simp add: requested_def option.map_ident)
next
  case (Cons d ds)
  show ?case
    by (cases "products_tbl s pid")
       (simp_all add: Cons.IH dec_line_products requested_def)
qed

lemma apply_order_writes:
  "apply_writes (order_writes b t ds oid) s =
     fold dec_line ds (fold (ins_line oid) ds (snd (insert_order b t ''pendente'' s)))"
  by (simp add: order_writes_def apply_writes_append apply_writes_map)

lemma final_store_tables:
  "orders_tbl (apply_writes (order_writes b t ds oid) s) =
     orders_tbl s @ [\<lparr>o_id = orders_seq s, o_buyer_id = b, o_total = t, o_status = ''pendente''\<rparr>]"
  "order_items_tbl (apply_writes (order_writes b t ds oid) s) =
     order_items_tbl s @ map (order_item_of oid) ds"
  "products_tbl (apply_writes (order_writes b t ds oid) s) pid =
     map_option (\<lambda>p. p\<lparr>p_stock := p_stock p - requested ds pid\<rparr>) (products_tbl s pid)"
  by (simp_all add: apply_order_writes fold_dec_line_tables fold_dec_line_products
      fold_ins_line snd_insert_order)

subsection \<open>The whole route\<close>

text \<open>
  A request whose elements all pass, with no read rejected: the answer and the store
  are decided by how many of the \<open>2 * n + 1\<close> writes complete.
\<close>

lemma place_order_valid:
  assumes "\<forall>x\<in>set items. valid_item s x" and "True \<notin> set (take (length items) fs)"
  shows "place_order b (Some items) fs s =
     (if completed (Suc (2 * length items)) (drop (length items) fs) = Suc (2 * length items)
      then Response 201 (OrderJson (new_order b s items))
      else post_orders_catch,
      apply_writes (take (completed (Suc (2 * length items)) (drop (length items) fs))
                      (writes_of b s items)) s)"
  using assms
  by (simp add: place_order_def post_orders_def check_items_valid run_create_order
      length_snapshots writes_of_def new_order_def)

lemma completed_add:
  "completed (n + m) fs =
     (if completed n fs = n then n + completed m (drop n fs) else completed n fs)"
proof (induction n arbitrary: fs)
  case 0
  then show ?case by simp
next
  case (Suc n)
  then show ?case by (simp add: drop_Suc)
qed

text \<open>When every element passes, only a rejected read can end the first loop.\<close>

lemma check_items_read_rejected:
  assumes "\<forall>x\<in>set items. valid_item s x" and "True \<in> set (take (length items) fs)"
  shows "run c (check_items b items t ds) fs s = (c, s)"
  using assms
proof (induction items arbitrary: t ds fs)
  case Nil
  then show ?case by simp
next
  case (Cons x items)
  from Cons.prems(1) have "valid_item s x" by simp
  then obtain d where d: "snapshot s x = Some d" by (auto simp: valid_item_def)
  then obtain it pid q p where x: "x = Some it" "product_id it = Some pid" "quantity it = Some q"
    "pid \<noteq> []" "q \<noteq> 0" "products_tbl s pid = Some p" "\<not> p_stock p < q"
    by (rule snapshot_SomeE)
  show ?case
  proof (cases "rejects fs")
    case True
    then show ?thesis using x by (simp add: js_not_str_def js_not_num_def)
  next
    case False
    then have "True \<in> set (take (length items) (tl fs))"
      using Cons.prems(2) no_reject_Suc [of "length items" fs] by auto
    with Cons.IH Cons.prems(1) False x show ?thesis
      by (simp add: js_not_str_def js_not_num_def select_product_def)
  qed
qed

text \<open>
  The same for any schedule: of the \<open>3 * n + 1\<close> queries of the route (\<open>n\<close> reads, then
  the writes) those before the first rejected one complete.
\<close>

lemma place_order_all_valid:
  assumes "\<forall>x\<in>set items. valid_item s x"
  shows "place_order b (Some items) fs s =
     (if completed (Suc (3 * length items)) fs = Suc (3 * length items)
      then Response 201 (OrderJson (new_order b s items))
      else post_orders_catch,
      apply_writes (take (completed (Suc (3 * length items)) fs - length items)
                      (writes_of b s items)) s)"
proof -
  let ?n = "length items"
  have k: "completed (Suc (3 * ?n)) fs =
      (if completed ?n fs = ?n then ?n + completed (Suc (2 * ?n)) (drop ?n fs)
       else completed ?n fs)"
    using completed_add [of ?n "Suc (2 * ?n)" fs] by (simp add: algebra_simps)
  show ?thesis
  proof (cases "completed ?n fs = ?n")
    case True
    then have "True \<notin> set (take ?n fs)" by (simp add: completed_all)
    from place_order_valid [OF assms this, of b] True k show ?thesis by simp
  next
    case False
    then have r: "True \<in> set (take ?n fs)" by (simp add: completed_all)
    have "completed ?n fs < ?n"
      using False completed_le [of ?n fs] by simp
    with k False check_items_read_rejected [OF assms r, of post_orders_catch b 0 "[]"]
    show ?thesis by (simp add: place_order_def post_orders_def)
  qed
qed

text \<open>
  The route answers 201 only when every element passed against the store it started
  from and none of its \<open>3 * n + 1\<close> queries was rejected; all its writes are then
  applied.
\<close>

lemma place_order_success:
  assumes "status (fst (place_order b (Some items) fs s)) = 201"
  shows "(\<forall>x\<in>set items. valid_item s x) \<and> True \<notin> set (take (Suc (3 * length items)) fs) \<and>
         place_order b (Some items) fs s =
           (Response 201 (OrderJson (new_order b s items)), apply_writes (writes_of b s items) s)"
proof -
  have ok: "(\<forall>x\<in>set items. valid_item s x) \<and> True \<notin> set (take (length items) fs)"
  proof (rule ccontr)
    assume "\<not> ?thesis"
    then have "(\<exists>x\<in>set items. \<not> valid_item s x) \<or> True \<in> set (take (length items) fs)"
      by blast
    from check_items_rejected [OF this, of post_orders_catch b 0 "[]"] assms
    show False by (auto simp: place_order_def post_orders_def post_orders_catch_def)
  qed
  then have v: "\<forall>x\<in>set items. valid_item s x" and nr: "True \<notin> set (take (length items) fs)"
    by simp_all
  let ?n = "Suc (2 * length items)"
  have c: "completed ?n (drop (length items) fs) = ?n"
    using assms place_order_valid [OF v nr, of b]
    by (auto simp: post_orders_catch_def split: if_splits)
  then have "True \<notin> set (take ?n (drop (length items) fs))"
    using completed_all [of ?n "drop (length items) fs"] by blast
  moreover have "take (Suc (3 * length items)) fs =
      take (length items) fs @ take ?n (drop (length items) fs)"
    by (simp add: take_add [symmetric])
  ultimately have "True \<notin> set (take (Suc (3 * length items)) fs)"
    using nr by simp
  moreover have "length (writes_of b s items) = ?n"
    using v by (simp add: writes_of_def length_order_writes length_snapshots)
  ultimately show ?thesis
    using v c place_order_valid [OF v nr, of b] by simp
qed

text \<open>
  A successful order whose lines name pairwise different products leaves each of them
  with its stock minus the quantity of its line, and that is not negative.
\<close>

lemma requested_distinct:
  assumes "distinct (map d_product_id ds)" and "d \<in> set ds"
  shows "requested ds (d_product_id d) = d_quantity d"
  using assms
proof (induction ds)
  case Nil
  then show ?case by simp
next
  case (Cons e ds)
  show ?case
  proof (cases "d = e")
    case True
    have "filter (\<lambda>x. d_product_id x = d_product_id e) ds = []"
      using Cons.prems(1) by (force simp: filter_empty_conv image_iff)
    then show ?thesis using True by (simp add: requested_def)
  next
    case False
    with Cons.prems have "d \<in> set ds" "d_product_id e \<noteq> d_product_id d" by auto
    with Cons show ?thesis by (simp add: requested_def)
  qed
qed

lemma snapshots_stock:
  "d \<in> set (snapshots s items) \<Longrightarrow>
     \<exists>p. products_tbl s (d_product_id d) = Some p \<and> d_quantity d \<le> p_stock p"
proof (induction items)
  case Nil
  then show ?case by (simp add: snapshots_Nil)
next
  case (Cons x items)
  show ?case
  proof (cases "snapshot s x")
    case None
    then have "snapshots s (x # items) = snapshots s items"
      by (simp add: snapshots_def)
    with Cons show ?thesis by simp
  next
    case (Some e)
    then have "snapshots s (x # items) = e # snapshots s items"
      by (rule snapshots_Cons)
    moreover have "\<exists>p. products_tbl s (d_product_id e) = Some p \<and> d_quantity e \<le> p_stock p"
      using Some by (auto elim!: snapshot_SomeE)
    ultimately show ?thesis using Cons by auto
  qed
qed

lemma distinct_products_stock:
  assumes "status (fst (place_order b (Some items) fs s)) = 201"
    and "distinct (map d_product_id (snapshots s items))"
    and "d \<in> set (snapshots s items)"
  shows "\<exists>p. products_tbl s (d_product_id d) = Some p \<and>
             products_tbl (snd (place_order b (Some items) fs s)) (d_product_id d) =
               Some (p\<lparr>p_stock := p_stock p - d_quantity d\<rparr>) \<and>
             0 \<le> p_stock p - d_quantity d"
proof -
  from snapshots_stock [OF assms(3)] obtain p where
    p: "products_tbl s (d_product_id d) = Some p" "d_quantity d \<le> p_stock p" by blast
  have "products_tbl (snd (place_order b (Some items) fs s)) (d_product_id d) =
      map_option (\<lambda>p. p\<lparr>p_stock := p_stock p - requested (snapshots s items) (d_product_id d)\<rparr>)
        (products_tbl s (d_product_id d))"
    using place_order_success [OF assms(1)] by (simp add: writes_of_def final_store_tables)
  with p requested_distinct [OF assms(2,3)] show ?thesis by simp
qed

lemma run_put_product_tables:
  "orders_tbl (snd (run c (put_product pid seller name description price stock file) fs s)) =
     orders_tbl s \<and>
   order_items_tbl (snd (run c (put_product pid seller name description price stock file) fs s)) =
     order_items_tbl s"
  by (simp add: put_product_def update_product_def Let_def split: option.splits)

subsection \<open>The two interpreters agree\<close>

lemma run_step:
  "run c p [] s =
     (case answer c p of
        Some r \<Rightarrow> (r, s)
      | None \<Rightarrow> run c (fst (step p s)) [] (snd (step p s)))"
  by (cases p) simp_all

text \<open>
  Letting the first of two routes take every step until it has answered is running it
  alone with no query rejected; the second route has not moved.
\<close>

lemma serial_is_run:
  "\<exists>n p'. interleave (replicate n True) p1 p2 s = (p', p2, snd (run c p1 [] s)) \<and>
          answer c p' = Some (fst (run c p1 [] s))"
proof (induction p1 arbitrary: s)
  case (Respond r)
  have "interleave (replicate 0 True) (Respond r) p2 s = (Respond r, p2, s)" by simp
  then show ?case by (intro exI [of _ 0]) simp
next
  case Throw
  have "interleave (replicate 0 True) Throw p2 s = (Throw, p2, s)" by simp
  then show ?case by (intro exI [of _ 0]) simp
next
  case (SelectProduct pid k)
  from SelectProduct [of "k (select_product pid s)" s] obtain n p' where
    "interleave (replicate n True) (k (select_product pid s)) p2 s =
       (p', p2, snd (run c (k (select_product pid s)) [] s))"
    "answer c p' = Some (fst (run c (k (select_product pid s)) [] s))"
    by auto
  then show ?case by (intro exI [of _ "Suc n"] exI [of _ p']) simp
next
  case (InsertOrder b t st k)
  let ?s = "snd (insert_order b t st s)" and ?p = "k (fst (insert_order b t st s))"
  from InsertOrder [of ?p ?s] obtain n p' where
    "interleave (replicate n True) ?p p2 ?s = (p', p2, snd (run c ?p [] ?s))"
    "answer c p' = Some (fst (run c ?p [] ?s))"
    by auto
  then show ?case by (intro exI [of _ "Suc n"] exI [of _ p']) simp
next
  case (InsertOrderItem oid pid q pr k)
  from InsertOrderItem [of "insert_order_item oid pid q pr s"] obtain n p' where
    "interleave (replicate n True) k p2 (insert_order_item oid pid q pr s) =
       (p', p2, snd (run c k [] (insert_order_item oid pid q pr s)))"
    "answer c p' = Some (fst (run c k [] (insert_order_item oid pid q pr s)))"
    by auto
  then show ?case by (intro exI [of _ "Suc n"] exI [of _ p']) simp
next
  case (UpdateStock q pid k)
  from UpdateStock [of "update_stock q pid s"] obtain n p' where
    "interleave (replicate n True) k p2 (update_stock q pid s) =
       (p', p2, snd (run c k [] (update_stock q pid s)))"
    "answer c p' = Some (fst (run c k [] (update_stock q pid s)))"
    by auto
  then show ?case by (intro exI [of _ "Suc n"] exI [of _ p']) simp
next
  case (SelectOwnProduct pid seller k)
  from SelectOwnProduct [of "k (select_own_product pid seller s)" s] obtain n p' where
    "interleave (replicate n True) (k (select_own_product pid seller s)) p2 s =
       (p', p2, snd (run c (k (select_own_product pid seller s)) [] s))"
    "answer c p' = Some (fst (run c (k (select_own_product pid seller s)) [] s))"
    by auto
  then show ?case by (intro exI [of _ "Suc n"] exI [of _ p']) simp
next
  case (UpdateProduct name description price stock imagePath pid k)
  let ?u = "update_product name description price stock imagePath pid s"
  from UpdateProduct [of "k (fst ?u)" "snd ?u"] obtain n p' where
    "interleave (replicate n True) (k (fst ?u)) p2 (snd ?u) =
       (p', p2, snd (run c (k (fst ?u)) [] (snd ?u)))"
    "answer c p' = Some (fst (run c (k (fst ?u)) [] (snd ?u)))"
    by auto
  then show ?case by (intro exI [of _ "Suc n"] exI [of _ p']) simp
qed

subsection \<open>Unfolding the routes on the examples\<close>

lemmas step_defs = post_orders_def create_order_def js_not_str_def js_not_num_def
  select_product_def insert_order_def Let_def insert_order_item_def update_stock_def line_def

lemmas eval_defs = place_order_def post_orders_catch_def step_defs shop_def product_def

lemma valid_shop_lines:
  "valid_item shop (line ''A'' 1)" "valid_item shop (line ''A'' 3)"
  "valid_item shop (line ''B'' 1)" "valid_item shop (line ''B'' 2)"
  by (simp_all add: valid_item_def snapshot_def line_def shop_def product_def)

lemma snapshot_shop_lines:
  "snapshot shop (line ''A'' 3) = Some \<lparr>d_product_id = ''A'', d_quantity = 3, d_price = 1000\<rparr>"
  "snapshot shop (line ''B'' 1) = Some \<lparr>d_product_id = ''B'', d_quantity = 1, d_price = 250\<rparr>"
  "snapshot shop (line ''B'' 2) = Some \<lparr>d_product_id = ''B'', d_quantity = 2, d_price = 250\<rparr>"
  by (simp_all add: snapshot_def line_def shop_def product_def)

subsection \<open>Rounding of the total\<close>

text \<open>
  The total of the routes is the loop of \<open>js_total\<close> with exact addition and
  multiplication in place of the rounded ones.
\<close>

lemma foldl_exact_total:
  "foldl (\<lambda>tot d. tot + d_price d * d_quantity d) t ds = t + order_total ds"
  by (induction ds arbitrary: t) (simp_all add: order_total_def)

lemma order_total_foldl:
  "order_total ds = foldl (\<lambda>tot d. tot + d_price d * d_quantity d) 0 ds"
  by (simp add: foldl_exact_total)


lemma quotient_of_pos:
  assumes "0 < y"
  shows "0 < fst (quotient_of y)" and "0 < snd (quotient_of y)"
    and "y = of_int (fst (quotient_of y)) / of_int (snd (quotient_of y))"
proof -
  obtain a b where ab: "quotient_of y = (a, b)" by (cases "quotient_of y")
  then have b: "0 < b" by (rule quotient_of_denom_pos)
  from ab have y: "y = of_int a / of_int b" by (rule quotient_of_div)
  with assms b have "0 < a" by (simp add: zero_less_divide_iff)
  with b y ab show "0 < fst (quotient_of y)" "0 < snd (quotient_of y)"
    "y = of_int (fst (quotient_of y)) / of_int (snd (quotient_of y))" by simp_all
qed

lemma bitlen_powi_bounds:
  assumes "0 < a"
  shows "(2::rat) powi (bitlen a - 1) \<le> of_int a" and "of_int a < (2::rat) powi bitlen a"
proof -
  from bitlen_bounds [OF assms] have l: "2 ^ nat (bitlen a - 1) \<le> a" and u: "a < 2 ^ nat (bitlen a)"
    by simp_all
  have p: "0 \<le> bitlen a - 1"
    using assms bitlen_def [of a] bitlen_nonneg [of a] u by (cases "bitlen a = 0") auto
  from l have "(of_int (2 ^ nat (bitlen a - 1)) :: rat) \<le> of_int a" by (simp only: of_int_le_iff)
  then show "(2::rat) powi (bitlen a - 1) \<le> of_int a"
    using p by (simp add: power_int_def)
  from u have "(of_int a :: rat) < of_int (2 ^ nat (bitlen a))" by (simp only: of_int_less_iff)
  then show "of_int a < (2::rat) powi bitlen a"
    using p by (simp add: power_int_def)
qed

text \<open>
  \<open>ilog2\<close> is the floor of the binary logarithm, so that \<open>b64\<close> keeps a significand
  of 53 bits.
\<close>

lemma ilog2_bounds:
  assumes "0 < y"
  shows "2 powi ilog2 y \<le> y" and "y < 2 powi (ilog2 y + 1)"
proof -
  let ?a = "fst (quotient_of y)" and ?b = "snd (quotient_of y)"
  let ?d = "bitlen ?a - bitlen ?b"
  note q = quotient_of_pos [OF assms]
  note ba = bitlen_powi_bounds [OF q(1)] and bb = bitlen_powi_bounds [OF q(2)]
  have low: "2 powi (?d - 1) \<le> y"
  proof -
    have "(2::rat) powi (?d - 1) = 2 powi (bitlen ?a - 1) / 2 powi bitlen ?b"
      by (simp add: power_int_diff)
    also have "\<dots> \<le> of_int ?a / of_int ?b"
      using ba(1) bb(2) q(1,2) by (intro frac_le) simp_all
    finally show ?thesis using q(3) by simp
  qed
  have up: "y < 2 powi (?d + 1)"
  proof -
    have "of_int ?a / of_int ?b < (2::rat) powi bitlen ?a / 2 powi (bitlen ?b - 1)"
      using ba(2) bb(1) q(1,2) by (intro frac_less) simp_all
    also have "\<dots> = 2 powi (?d + 1)"
      by (simp add: power_int_diff power_int_add)
    finally show ?thesis using q(3) by simp
  qed
  show "2 powi ilog2 y \<le> y"
    using low by (simp add: ilog2_def Let_def)
  show "y < 2 powi (ilog2 y + 1)"
    using up by (auto simp: ilog2_def Let_def not_le)
qed

text \<open>The number that \<open>b64\<close> rounds to an integer has its highest bit at position 52.\<close>

lemma b64_significand:
  assumes "x \<noteq> 0"
  shows "2 ^ 52 \<le> \<bar>x / 2 powi (ilog2 \<bar>x\<bar> - 52)\<bar>"
    and "\<bar>x / 2 powi (ilog2 \<bar>x\<bar> - 52)\<bar> < 2 ^ 53"
proof -
  define l where "l = ilog2 \<bar>x\<bar>"
  have pos: "0 < \<bar>x\<bar>" using assms by simp
  note b = ilog2_bounds [OF pos, folded l_def]
  have p: "(0::rat) < 2 powi l" by simp
  have e: "\<bar>x / 2 powi (l - 52)\<bar> = \<bar>x\<bar> / 2 powi l * 2 ^ 52"
    by (simp add: power_int_diff abs_mult)
  have "1 \<le> \<bar>x\<bar> / 2 powi l" using b(1) p by (simp add: le_divide_eq)
  then have "1 * 2 ^ 52 \<le> \<bar>x\<bar> / 2 powi l * 2 ^ 52"
    by (intro mult_right_mono) simp_all
  with e show "2 ^ 52 \<le> \<bar>x / 2 powi (ilog2 \<bar>x\<bar> - 52)\<bar>"
    by (simp add: l_def)
  have "\<bar>x\<bar> / 2 powi l < 2"
    using b(2) p by (simp add: divide_less_eq power_int_add mult.commute)
  then have "\<bar>x\<bar> / 2 powi l * 2 ^ 52 < 2 * 2 ^ 52"
    by (intro mult_strict_right_mono) simp_all
  with e show "\<bar>x / 2 powi (ilog2 \<bar>x\<bar> - 52)\<bar> < 2 ^ 53"
    by (simp add: l_def)
qed














subsection \<open>The totals of the examples\<close>





section \<open>The claims\<close>

subsection \<open>C1: the writes of one order are not atomic\<close>

text \<open>
  The spec asks that the three persistence steps are applied all or none. The route
  sends each statement on its own and its catch block only answers 500, so this
  fails: with product A in stock and the insert of the line item rejected, the answer
  is 500 and the order header stays in the table, without line items and with the
  stock untouched.
\<close>

theorem order_header_survives_rejected_insert:
  "orders_tbl shop = [] \<and>
   place_order ''u'' (Some [line ''A'' 3]) [False, False, True] shop =
     (Response 500 (ErrorJson OrderCreationError),
      shop\<lparr>orders_tbl := [\<lparr>o_id = 1, o_buyer_id = ''u'', o_total = 3000,
                              o_status = ''pendente''\<rparr>],
           orders_seq := 2\<rparr>)"
  by (simp add: eval_defs)

text \<open>
  C1, as the code has it. For a request of \<open>n\<close> elements that all pass validation the
  route issues \<open>3 * n + 1\<close> queries: the \<open>n\<close> reads, then its writes, which are the
  order header, the \<open>n\<close> line items and the \<open>n\<close> stock updates. When the database
  rejects none of them, all writes are applied and the answer is 201 with the new
  order. When it rejects one, the answer is 500 and exactly the writes that completed
  before the rejected query remain (none when a read or the header insert is
  rejected); nothing is rolled back.
\<close>

theorem writes_before_rejection_survive:
  assumes "\<forall>x\<in>set items. valid_item s x"
  shows "place_order b (Some items) fs s =
     (if completed (Suc (3 * length items)) fs = Suc (3 * length items)
      then Response 201 (OrderJson (new_order b s items))
      else Response 500 (ErrorJson OrderCreationError),
      apply_writes (take (completed (Suc (3 * length items)) fs - length items)
                      (writes_of b s items)) s)"
  using place_order_all_valid [OF assms] by (simp add: post_orders_catch_def)

text \<open>
  At the shop, with the stock update rejected: three of the four queries complete, the
  header and the line item stay, the stock of A is still 5.
\<close>

theorem writes_before_rejection_survive_witness:
  "list_all (valid_item shop) [line ''A'' 3] \<and>
   completed 4 [False, False, False, True] = 3 \<and>
   place_order ''u'' (Some [line ''A'' 3]) [False, False, False, True] shop =
     (Response 500 (ErrorJson OrderCreationError),
      apply_writes (take 2 (writes_of ''u'' shop [line ''A'' 3])) shop) \<and>
   apply_writes (take 2 (writes_of ''u'' shop [line ''A'' 3])) shop =
     shop\<lparr>orders_tbl := [\<lparr>o_id = 1, o_buyer_id = ''u'', o_total = 3000,
                             o_status = ''pendente''\<rparr>],
          order_items_tbl := [\<lparr>oi_order_id = 1, oi_product_id = ''A'', oi_quantity = 3,
                                oi_price = 1000\<rparr>],
          orders_seq := 2\<rparr>"
proof -
  have v: "\<forall>x\<in>set [line ''A'' 3]. valid_item shop x"
    by (simp add: valid_shop_lines)
  have k: "completed 4 [False, False, False, True] = 3"
    by (simp add: eval_nat_numeral)
  have w: "apply_writes (take 2 (writes_of ''u'' shop [line ''A'' 3])) shop =
     shop\<lparr>orders_tbl := [\<lparr>o_id = 1, o_buyer_id = ''u'', o_total = 3000,
                             o_status = ''pendente''\<rparr>],
          order_items_tbl := [\<lparr>oi_order_id = 1, oi_product_id = ''A'', oi_quantity = 3,
                                oi_price = 1000\<rparr>],
          orders_seq := 2\<rparr>"
    by (simp add: writes_of_def order_writes_def snapshots_def
        snapshot_shop_lines order_total_def ins_line_def insert_order_def Let_def
        insert_order_item_def numeral_2_eq_2)
       (simp add: shop_def)
  have "Suc (3 * length [line ''A'' 3]) = 4" by simp
  with writes_before_rejection_survive [OF v, of "''u''" "[False, False, False, True]"] v k w
  show ?thesis by simp
qed

subsection \<open>C2: the total of an order\<close>




subsection \<open>C3: stock after a successful order\<close>

text \<open>
  C3. The spec asks that after a successful order the stock of every product is the
  stock before minus the quantity, and never negative. The route checks each line
  against the stock it reads for that line and decrements once per line afterwards,
  so a request that names product A twice with quantity 3 passes at stock 5 (the
  entities declare no constraint on the stock column), is answered 201, and leaves the
  stock of A at -1.
\<close>

theorem duplicate_lines_oversell_example:
  "map_option p_stock (products_tbl shop ''A'') = Some 5 \<and>
   status (fst (place_order ''u'' (Some [line ''A'' 3, line ''A'' 3]) [] shop)) = 201 \<and>
   map_option p_stock
     (products_tbl (snd (place_order ''u'' (Some [line ''A'' 3, line ''A'' 3]) [] shop)) ''A'') =
     Some (- 1)"
  by (simp add: eval_defs)

subsection \<open>C4: two orders for the last unit\<close>

text \<open>
  The spec asks that of two simultaneous orders for the last unit exactly one
  succeeds. The route reads the stock once, in its first loop, and decrements it
  later without reading it again; when the two requests alternate at their awaits,
  both reads see stock 1, both are answered 201, and the stock ends at -1.
\<close>

theorem interleaved_commits_oversell:
  "map_option p_stock (products_tbl one_left ''A'') = Some 1 \<and>
   interleave [True, False, True, False, True, False, True, False]
     (post_orders ''u1'' (Some [line ''A'' 1])) (post_orders ''u2'' (Some [line ''A'' 1]))
     one_left =
   (Respond (Response 201 (OrderJson \<lparr>o_id = 1, o_buyer_id = ''u1'', o_total = 1000,
                                       o_status = ''pendente''\<rparr>)),
    Respond (Response 201 (OrderJson \<lparr>o_id = 2, o_buyer_id = ''u2'', o_total = 1000,
                                       o_status = ''pendente''\<rparr>)),
    \<lparr>products_tbl = [''A'' \<mapsto> product 1000 (- 1)],
     orders_tbl = [\<lparr>o_id = 1, o_buyer_id = ''u1'', o_total = 1000, o_status = ''pendente''\<rparr>,
                   \<lparr>o_id = 2, o_buyer_id = ''u2'', o_total = 1000, o_status = ''pendente''\<rparr>],
     order_items_tbl =
       [\<lparr>oi_order_id = 1, oi_product_id = ''A'', oi_quantity = 1, oi_price = 1000\<rparr>,
        \<lparr>oi_order_id = 2, oi_product_id = ''A'', oi_quantity = 1, oi_price = 1000\<rparr>],
     orders_seq = 3\<rparr>)"
  by (simp add: step_defs one_left_def product_def)

text \<open>
  C4, as the code has it. When two orders for the last unit of a product run one
  after the other, whichever runs first is answered 201 and takes the stock to 0, and
  the other reads stock 0 and is answered 400 with the error that names the product;
  the stock is only checked in the first loop of each request.
\<close>

theorem serial_commits_last_unit:
  assumes "products_tbl s pid = Some p" and "p_stock p = 1" and "pid \<noteq> []"
  shows "interleave [True, True, True, True, False]
           (post_orders b1 (Some [line pid 1])) (post_orders b2 (Some [line pid 1])) s =
         (Respond (Response 201 (OrderJson \<lparr>o_id = orders_seq s, o_buyer_id = b1,
                                             o_total = p_price p, o_status = ''pendente''\<rparr>)),
          Respond (Response 400 (ErrorJson (UnavailableOrInsufficient pid))),
          s\<lparr>products_tbl := (products_tbl s)(pid \<mapsto> p\<lparr>p_stock := 0\<rparr>),
            orders_tbl := orders_tbl s @
              [\<lparr>o_id = orders_seq s, o_buyer_id = b1, o_total = p_price p,
                o_status = ''pendente''\<rparr>],
            order_items_tbl := order_items_tbl s @
              [\<lparr>oi_order_id = orders_seq s, oi_product_id = pid, oi_quantity = 1,
                oi_price = p_price p\<rparr>],
            orders_seq := Suc (orders_seq s)\<rparr>) \<and>
         interleave [False, False, False, False, True]
           (post_orders b1 (Some [line pid 1])) (post_orders b2 (Some [line pid 1])) s =
         (Respond (Response 400 (ErrorJson (UnavailableOrInsufficient pid))),
          Respond (Response 201 (OrderJson \<lparr>o_id = orders_seq s, o_buyer_id = b2,
                                             o_total = p_price p, o_status = ''pendente''\<rparr>)),
          s\<lparr>products_tbl := (products_tbl s)(pid \<mapsto> p\<lparr>p_stock := 0\<rparr>),
            orders_tbl := orders_tbl s @
              [\<lparr>o_id = orders_seq s, o_buyer_id = b2, o_total = p_price p,
                o_status = ''pendente''\<rparr>],
            order_items_tbl := order_items_tbl s @
              [\<lparr>oi_order_id = orders_seq s, oi_product_id = pid, oi_quantity = 1,
                oi_price = p_price p\<rparr>],
            orders_seq := Suc (orders_seq s)\<rparr>)"
  using assms by (simp add: step_defs)

theorem serial_commits_last_unit_witness:
  "map_option p_stock (products_tbl one_left ''A'') = Some 1 \<and>
   interleave [True, True, True, True, False]
     (post_orders ''u1'' (Some [line ''A'' 1])) (post_orders ''u2'' (Some [line ''A'' 1]))
     one_left =
   (Respond (Response 201 (OrderJson \<lparr>o_id = 1, o_buyer_id = ''u1'', o_total = 1000,
                                       o_status = ''pendente''\<rparr>)),
    Respond (Response 400 (ErrorJson (UnavailableOrInsufficient ''A''))),
    \<lparr>products_tbl = [''A'' \<mapsto> product 1000 0],
     orders_tbl = [\<lparr>o_id = 1, o_buyer_id = ''u1'', o_total = 1000, o_status = ''pendente''\<rparr>],
     order_items_tbl =
       [\<lparr>oi_order_id = 1, oi_product_id = ''A'', oi_quantity = 1, oi_price = 1000\<rparr>],
     orders_seq = 2\<rparr>)"
proof -
  have a: "products_tbl one_left ''A'' = Some (product 1000 1)"
    by (simp add: one_left_def)
  have b: "p_stock (product 1000 1) = 1"
    by (simp add: product_def)
  from serial_commits_last_unit [OF a b, of "''u1''" "''u2''"] show ?thesis
    by (simp add: one_left_def product_def)
qed

subsection \<open>C5: a failed validation writes nothing\<close>




subsection \<open>C6: the error for an unknown product and for a short stock\<close>

text \<open>
  The spec asks for two distinct errors, the second carrying the requested and the
  available quantity. The route has one branch and one message for both: against a
  store where B has stock 2 and against a store without B, the request for 5 of B gets
  the same answer, which names B and nothing else.
\<close>

theorem missing_and_short_stock_same_error:
  "map_option p_stock (products_tbl shop ''B'') = Some 2 \<and>
   products_tbl (shop\<lparr>products_tbl := Map.empty\<rparr>) ''B'' = None \<and>
   fst (place_order ''u'' (Some [line ''B'' 5]) [] shop) =
     Response 400 (ErrorJson (UnavailableOrInsufficient ''B'')) \<and>
   fst (place_order ''u'' (Some [line ''B'' 5]) [] (shop\<lparr>products_tbl := Map.empty\<rparr>)) =
     Response 400 (ErrorJson (UnavailableOrInsufficient ''B''))"
  by (simp add: eval_defs)

text \<open>
  C6, as the code has it. When the lines before it pass and no query is rejected, a
  line whose product does not exist, or whose quantity exceeds the product's stock,
  ends the operation with status 400 and the one error "product id unavailable or
  insufficient stock", which carries the offending product id; the store is unchanged,
  so no order is created.
\<close>

theorem unavailable_or_insufficient:
  assumes "\<forall>x\<in>set pre. valid_item s x"
    and "product_id it = Some pid" and "quantity it = Some q" and "pid \<noteq> []" and "q \<noteq> 0"
    and "case products_tbl s pid of None \<Rightarrow> True | Some p \<Rightarrow> p_stock p < q"
  shows "place_order b (Some (pre @ Some it # post)) [] s =
           (Response 400 (ErrorJson (UnavailableOrInsufficient pid)), s)"
proof -
  have "run post_orders_catch (check_items b (pre @ Some it # post) 0 []) [] s =
        run post_orders_catch
          (check_items b (Some it # post) (0 + order_total (snapshots s pre)) ([] @ snapshots s pre))
          (drop (length pre) []) s"
    using assms(1) by (intro check_items_valid_prefix) simp_all
  also have "\<dots> = (Response 400 (ErrorJson (UnavailableOrInsufficient pid)), s)"
    using assms(2-6)
    by (simp add: js_not_str_def js_not_num_def select_product_def split: option.splits)
  finally show ?thesis by (simp add: place_order_def post_orders_def)
qed

theorem unavailable_or_insufficient_witness:
  "list_all (valid_item shop) [line ''A'' 1] \<and>
   place_order ''u'' (Some [line ''A'' 1, line ''B'' 5, line ''A'' 2]) [] shop =
     (Response 400 (ErrorJson (UnavailableOrInsufficient ''B'')), shop)"
proof -
  have v: "\<forall>x\<in>set [line ''A'' 1]. valid_item shop x"
    by (simp add: valid_shop_lines)
  have c: "case products_tbl shop ''B'' of None \<Rightarrow> True | Some p \<Rightarrow> p_stock p < 5"
    by (simp add: shop_def product_def)
  from unavailable_or_insufficient [OF v _ _ _ _ c,
      of "\<lparr>product_id = Some ''B'', quantity = Some 5\<rparr>" "''u''" "[line ''A'' 2]"] v
  show ?thesis by (simp add: line_def)
qed

subsection \<open>C7: what the input checks turn down\<close>

text \<open>
  The spec asks that an empty list and every quantity that is not a positive integer
  are rejected. The route tests that \<^verbatim>\<open>products\<close> is an array and that the two
  fields of each element are truthy: an empty array goes through and creates an order
  with total 0 and no lines, and the quantity -1 goes through, giving a negative total
  and a stock one higher.
\<close>

theorem empty_list_and_negative_quantity_accepted:
  "place_order ''u'' (Some []) [] shop =
     (Response 201 (OrderJson \<lparr>o_id = 1, o_buyer_id = ''u'', o_total = 0,
                                o_status = ''pendente''\<rparr>),
      shop\<lparr>orders_tbl := [\<lparr>o_id = 1, o_buyer_id = ''u'', o_total = 0,
                              o_status = ''pendente''\<rparr>],
           orders_seq := 2\<rparr>) \<and>
   fst (place_order ''u'' (Some [line ''A'' (- 1)]) [] shop) =
     Response 201 (OrderJson \<lparr>o_id = 1, o_buyer_id = ''u'', o_total = - 1000,
                               o_status = ''pendente''\<rparr>) \<and>
   map_option p_stock
     (products_tbl (snd (place_order ''u'' (Some [line ''A'' (- 1)]) [] shop)) ''A'') = Some 6"
  by (simp add: eval_defs)

text \<open>
  C7, as the code has it. A request whose \<^verbatim>\<open>products\<close> field is missing or not
  an array is answered 400 ("Produtos sao obrigatorios e devem ser um array") before
  any query: the route is that answer alone. An element with a missing or empty
  product id, or with a missing or zero quantity, is answered 400 ("Cada produto deve
  ter ID e quantidade") with nothing written, as soon as the elements before it have
  passed and none of their reads was rejected. Wherever such an element stands in the
  request and whatever the database rejects, the request is never answered 201 and
  writes nothing.
\<close>

theorem field_checks_reject:
  assumes "\<forall>x\<in>set pre. valid_item s x" and "True \<notin> set (take (length pre) fs)"
    and "js_not_str (product_id it) \<or> js_not_num (quantity it)"
  shows "post_orders b None = Respond (Response 400 (ErrorJson ProductsRequired)) \<and>
         place_order b None gs s = (Response 400 (ErrorJson ProductsRequired), s) \<and>
         place_order b (Some (pre @ Some it # post)) fs s =
           (Response 400 (ErrorJson ItemFieldsRequired), s) \<and>
         (Some it \<in> set items \<longrightarrow>
            snd (place_order b (Some items) gs s) = s \<and>
            status (fst (place_order b (Some items) gs s)) \<in> {400, 500})"
proof -
  have "run post_orders_catch (check_items b (pre @ Some it # post) 0 []) fs s =
        run post_orders_catch
          (check_items b (Some it # post) (0 + order_total (snapshots s pre)) ([] @ snapshots s pre))
          (drop (length pre) fs) s"
    using assms(1,2) by (rule check_items_valid_prefix)
  also have "\<dots> = (Response 400 (ErrorJson ItemFieldsRequired), s)"
    using assms(3) by (auto simp: js_not_str_def js_not_num_def split: option.splits)
  finally have exact: "place_order b (Some (pre @ Some it # post)) fs s =
      (Response 400 (ErrorJson ItemFieldsRequired), s)"
    by (simp add: place_order_def post_orders_def)
  have "snd (place_order b (Some items) gs s) = s \<and>
        status (fst (place_order b (Some items) gs s)) \<in> {400, 500}"
    if "Some it \<in> set items"
  proof -
    have "\<not> valid_item s (Some it)"
      using assms(3)
      by (auto simp: valid_item_def snapshot_def js_not_str_def js_not_num_def
          split: option.splits)
    with that have "\<exists>x\<in>set items. \<not> valid_item s x" by blast
    then obtain r where "run post_orders_catch (check_items b items 0 []) gs s = (r, s)"
      "r = post_orders_catch \<or> status r = 400"
      using check_items_rejected [of items s gs post_orders_catch b 0 "[]"] by blast
    then show ?thesis
      by (auto simp: place_order_def post_orders_def post_orders_catch_def)
  qed
  with exact show ?thesis
    by (simp add: place_order_def post_orders_def)
qed

text \<open>
  At the shop: the second element asks for 0 of A after a first element that passes.
\<close>

theorem field_checks_reject_witness:
  "list_all (valid_item shop) [line ''A'' 1] \<and>
   js_not_num (quantity \<lparr>product_id = Some ''A'', quantity = Some 0\<rparr>) \<and>
   place_order ''u'' None [] shop = (Response 400 (ErrorJson ProductsRequired), shop) \<and>
   place_order ''u'' (Some [line ''A'' 1, line ''A'' 0, line ''B'' 1]) [] shop =
     (Response 400 (ErrorJson ItemFieldsRequired), shop)"
proof -
  have v: "\<forall>x\<in>set [line ''A'' 1]. valid_item shop x"
    by (simp add: valid_shop_lines)
  have f: "True \<notin> set (take (length [line ''A'' 1]) [])"
    by simp
  have z: "js_not_str (product_id \<lparr>product_id = Some ''A'', quantity = Some 0\<rparr>) \<or>
           js_not_num (quantity \<lparr>product_id = Some ''A'', quantity = Some 0\<rparr>)"
    by (simp add: js_not_num_def)
  from field_checks_reject [OF v f z, of "''u''" "[]" "[line ''B'' 1]" "[]"] v
  show ?thesis
    by (simp add: line_def js_not_num_def)
qed

subsection \<open>C8: line prices are snapshots\<close>

text \<open>
  C8. After a successful order the route has added one line item per element of the
  request, with the element's product and quantity and, as unit price, the price the
  product row had in the store the route validated against. Editing a product
  afterwards (PUT /products/:id, whatever it sets and whether or not it goes through)
  changes neither the line items nor the orders, so the prices and totals of earlier
  orders stay as they were recorded.
\<close>

theorem line_price_is_snapshot:
  "(status (fst (place_order b (Some items) fs s)) = 201 \<longrightarrow>
      order_items_tbl (snd (place_order b (Some items) fs s)) =
        order_items_tbl s @ map (order_item_of (orders_seq s)) (snapshots s items) \<and>
      length (snapshots s items) = length items \<and>
      (\<forall>d\<in>set (snapshots s items).
         map_option p_price (products_tbl s (d_product_id d)) = Some (d_price d))) \<and>
   orders_tbl (snd (edit_product pid seller name description price stock file gs s')) =
     orders_tbl s' \<and>
   order_items_tbl (snd (edit_product pid seller name description price stock file gs s')) =
     order_items_tbl s'"
proof -
  have "order_items_tbl (snd (place_order b (Some items) fs s)) =
          order_items_tbl s @ map (order_item_of (orders_seq s)) (snapshots s items) \<and>
        length (snapshots s items) = length items"
    if "status (fst (place_order b (Some items) fs s)) = 201"
    using place_order_success [OF that]
    by (simp add: writes_of_def final_store_tables length_snapshots)
  then show ?thesis
    by (simp add: edit_product_def run_put_product_tables snapshots_price)
qed

text \<open>
  At the shop: 3 of A are ordered at 10.00, then the seller sets the price of A to
  19.99; the line item still says 10.00.
\<close>

theorem line_price_is_snapshot_witness:
  "status (fst (place_order ''u'' (Some [line ''A'' 3]) [] shop)) = 201 \<and>
   order_items_tbl (snd (place_order ''u'' (Some [line ''A'' 3]) [] shop)) =
     [\<lparr>oi_order_id = 1, oi_product_id = ''A'', oi_quantity = 3, oi_price = 1000\<rparr>] \<and>
   map_option p_price
     (products_tbl (snd (edit_product ''A'' ''seller'' ''name'' ''text'' 1999 2 None []
        (snd (place_order ''u'' (Some [line ''A'' 3]) [] shop)))) ''A'') = Some 1999 \<and>
   order_items_tbl (snd (edit_product ''A'' ''seller'' ''name'' ''text'' 1999 2 None []
        (snd (place_order ''u'' (Some [line ''A'' 3]) [] shop)))) =
     [\<lparr>oi_order_id = 1, oi_product_id = ''A'', oi_quantity = 3, oi_price = 1000\<rparr>]"
proof -
  have ok: "status (fst (place_order ''u'' (Some [line ''A'' 3]) [] shop)) = 201"
    by (simp add: eval_defs)
  have sn: "snapshots shop [line ''A'' 3] =
      [\<lparr>d_product_id = ''A'', d_quantity = 3, d_price = 1000\<rparr>]"
    by (simp add: snapshots_def snapshot_shop_lines)
  have ed: "map_option p_price
     (products_tbl (snd (edit_product ''A'' ''seller'' ''name'' ''text'' 1999 2 None []
        (snd (place_order ''u'' (Some [line ''A'' 3]) [] shop)))) ''A'') = Some 1999"
    by (simp add: edit_product_def put_product_def select_own_product_def update_product_def
        eval_defs)
  from line_price_is_snapshot [of "''u''" "[line ''A'' 3]" "[]" shop "''A''" "''seller''"
      "''name''" "''text''" 1999 2 None "[]" "snd (place_order ''u'' (Some [line ''A'' 3]) [] shop)"]
    ok sn ed
  show ?thesis by (simp add: order_item_of_def shop_def)
qed

subsection \<open>C9: the initial status\<close>

text \<open>
  The spec names the initial status pending, one of the five values the Order entity
  lists. The route writes the literal it has in its INSERT, which is none of them.
\<close>

theorem initial_status_is_not_pending:
  "map o_status (orders_tbl (snd (place_order ''u'' (Some [line ''A'' 3]) [] shop))) =
     [''pendente''] \<and>
   ''pendente'' \<noteq> ''pending'' \<and> ''pendente'' \<notin> order_statuses"
  by (simp add: eval_defs order_statuses_def)

text \<open>
  C9, as the code has it. Every order the route creates successfully is appended to
  the orders table and returned in the answer with the status \<^verbatim>\<open>pendente\<close>.
\<close>

theorem new_order_is_pendente:
  assumes "status (fst (place_order b (Some items) fs s)) = 201"
  shows "orders_tbl (snd (place_order b (Some items) fs s)) = orders_tbl s @ [new_order b s items] \<and>
         json (fst (place_order b (Some items) fs s)) = OrderJson (new_order b s items) \<and>
         o_status (new_order b s items) = ''pendente''"
  using place_order_success [OF assms]
  by (simp add: writes_of_def final_store_tables new_order_def)

theorem new_order_is_pendente_witness:
  "status (fst (place_order ''u'' (Some [line ''B'' 2]) [] shop)) = 201 \<and>
   orders_tbl (snd (place_order ''u'' (Some [line ''B'' 2]) [] shop)) =
     [\<lparr>o_id = 1, o_buyer_id = ''u'', o_total = 500, o_status = ''pendente''\<rparr>]"
proof -
  have ok: "status (fst (place_order ''u'' (Some [line ''B'' 2]) [] shop)) = 201"
    by (simp add: eval_defs)
  have sn: "snapshots shop [line ''B'' 2] =
      [\<lparr>d_product_id = ''B'', d_quantity = 2, d_price = 250\<rparr>]"
    by (simp add: snapshots_def snapshot_shop_lines)
  from new_order_is_pendente [OF ok] ok sn show ?thesis
    by (simp add: new_order_def order_total_def shop_def)
qed

subsection \<open>C10: several lines for one product\<close>

text \<open>
  C10. With no query rejected, a request succeeds exactly when each of its lines, taken
  alone, passes against the store the request started from: the quantities of earlier
  lines for the same product are not subtracted when a later line is checked. On
  success every product's stock is decremented once per line, by the sum of the
  quantities of the lines that name it; so whenever that sum exceeds the stock, the
  order succeeds and the stock ends negative.
\<close>

theorem lines_validated_independently:
  "(status (fst (place_order b (Some items) [] s)) = 201) = (\<forall>x\<in>set items. valid_item s x) \<and>
   ((\<forall>x\<in>set items. valid_item s x) \<longrightarrow>
      (\<forall>pid. products_tbl (snd (place_order b (Some items) [] s)) pid =
         map_option (\<lambda>p. p\<lparr>p_stock := p_stock p - requested (snapshots s items) pid\<rparr>)
           (products_tbl s pid)) \<and>
      (\<forall>pid p. products_tbl s pid = Some p \<and> p_stock p < requested (snapshots s items) pid \<longrightarrow>
         (case products_tbl (snd (place_order b (Some items) [] s)) pid of
            None \<Rightarrow> False
          | Some p' \<Rightarrow> p_stock p' < 0)))"
proof -
  have a: "\<forall>x\<in>set items. valid_item s x"
    if "status (fst (place_order b (Some items) [] s)) = 201"
    using place_order_success [OF that] by simp
  have b: "place_order b (Some items) [] s =
      (Response 201 (OrderJson (new_order b s items)), apply_writes (writes_of b s items) s)"
    if v: "\<forall>x\<in>set items. valid_item s x"
  proof -
    have "length (writes_of b s items) = Suc (2 * length items)"
      using v by (simp add: writes_of_def length_order_writes length_snapshots)
    moreover have "completed (Suc (2 * length items)) [] = Suc (2 * length items)"
      by (simp only: completed_all) simp
    ultimately show ?thesis
      using place_order_valid [OF v, of "[]" b] by simp
  qed
  show ?thesis
    using a b by (auto simp: writes_of_def final_store_tables)
qed

text \<open>
  At the shop, B has stock 2: the lines for 2 and for 1 of B each fit, together they ask
  for 3, the order succeeds and the stock of B is -1.
\<close>

theorem lines_validated_independently_witness:
  "list_all (valid_item shop) [line ''B'' 2, line ''B'' 1] \<and>
   map_option p_stock (products_tbl shop ''B'') = Some 2 \<and>
   requested (snapshots shop [line ''B'' 2, line ''B'' 1]) ''B'' = 3 \<and>
   status (fst (place_order ''u'' (Some [line ''B'' 2, line ''B'' 1]) [] shop)) = 201 \<and>
   map_option p_stock
     (products_tbl (snd (place_order ''u'' (Some [line ''B'' 2, line ''B'' 1]) [] shop)) ''B'') =
     Some (- 1)"
proof -
  have v: "\<forall>x\<in>set [line ''B'' 2, line ''B'' 1]. valid_item shop x"
    by (simp add: valid_shop_lines)
  have sn: "snapshots shop [line ''B'' 2, line ''B'' 1] =
      [\<lparr>d_product_id = ''B'', d_quantity = 2, d_price = 250\<rparr>,
       \<lparr>d_product_id = ''B'', d_quantity = 1, d_price = 250\<rparr>]"
    by (simp add: snapshots_def snapshot_shop_lines)
  have st: "products_tbl shop ''B'' = Some (product 250 2)"
    by (simp add: shop_def)
  from lines_validated_independently [of "''u''" "[line ''B'' 2, line ''B'' 1]" shop] v sn st
  show ?thesis
    by (simp add: requested_def product_def list_all_iff)
qed

end
